theory Spec2Isabelle
  imports Main
begin

section \<open>Strings and cells\<close>

text \<open>
  Python strings are modelled as HOL strings whose characters are read as the code points
  0 to 255 (Latin-1).  The four relationship markers of the matrix all live in that range:
  e with circumflex is 0xEA, e with grave accent is 0xE8, c with cedilla is 0xE7 and the
  feminine ordinal indicator is 0xAA.  On this range \<^verbatim>\<open>str.isspace\<close>, \<^verbatim>\<open>str.strip\<close> and
  \<^verbatim>\<open>str.lower\<close> are as defined below.
\<close>

definition isspace :: "char \<Rightarrow> bool" where
  "isspace c =
     (let n = (of_char c :: nat)
      in (9 \<le> n \<and> n \<le> 13) \<or> (28 \<le> n \<and> n \<le> 32) \<or> n = 133 \<or> n = 160)"

definition str_strip :: "string \<Rightarrow> string" where
  "str_strip s = rev (dropWhile isspace (rev (dropWhile isspace s)))"

definition lower_char :: "char \<Rightarrow> char" where
  "lower_char c =
     (let n = (of_char c :: nat)
      in if (65 \<le> n \<and> n \<le> 90) \<or> (192 \<le> n \<and> n \<le> 222 \<and> n \<noteq> 215)
         then char_of (n + 32) else c)"

definition str_lower :: "string \<Rightarrow> string" where
  "str_lower s = map lower_char s"

fun str_startswith :: "string \<Rightarrow> string \<Rightarrow> bool" where
  "str_startswith s [] = True"
| "str_startswith [] (p # ps) = False"
| "str_startswith (c # cs) (p # ps) = (c = p \<and> str_startswith cs ps)"

text \<open>\<open>str_contains pat s\<close> is Python's \<^verbatim>\<open>pat in s\<close>.\<close>

fun str_contains :: "string \<Rightarrow> string \<Rightarrow> bool" where
  "str_contains pat [] = (pat = [])"
| "str_contains pat (c # cs) = (str_startswith (c # cs) pat \<or> str_contains pat cs)"

text \<open>
  A cell of the data frame is either missing (\<^verbatim>\<open>NaN\<close>, for which \<^verbatim>\<open>pd.notna\<close> is false)
  or a value, represented by its \<^verbatim>\<open>str()\<close> text.
\<close>

type_synonym cell = "string option"

definition notna :: "cell \<Rightarrow> bool" where
  "notna v = (v \<noteq> None)"

definition str_of :: "cell \<Rightarrow> string" where
  "str_of v = (case v of None \<Rightarrow> ''nan'' | Some s \<Rightarrow> s)"

definition markers :: "string list" where
  "markers = [[CHR 0xEA], [CHR 0xE8], [CHR 0xE7], [CHR 0xAA]]"

definition target_marker :: string where
  "target_marker = [CHR 0xE7]"

definition param_markers :: "string list" where
  "param_markers = [[CHR 0xE8], [CHR 0xEA]]"


section \<open>The data frame\<close>

text \<open>
  \<^verbatim>\<open>self.data\<close> after a successful load: a rectangular frame with \<open>nrows\<close> rows
  (\<^verbatim>\<open>len(self.data)\<close>) and \<open>ncols\<close> columns (\<^verbatim>\<open>len(self.data.columns)\<close>), both
  labelled 0, 1, 2, ... since the file is read with \<^verbatim>\<open>header=None\<close>.  \<open>cells\<close> is read
  through \<open>iloc\<close> only, which raises \<^verbatim>\<open>IndexError\<close> outside the frame as pandas does.
\<close>

datatype error = IndexError | ReError

record grid =
  nrows :: nat
  ncols :: nat
  cells :: "nat \<Rightarrow> nat \<Rightarrow> cell"

definition iloc :: "grid \<Rightarrow> nat \<Rightarrow> nat \<Rightarrow> error + cell" where
  "iloc g r c = (if r < nrows g \<and> c < ncols g then Inr (cells g r c) else Inl IndexError)"

text \<open>\<^verbatim>\<open>self.data.iloc[r]\<close> for a row inside the frame: the series of (column label, value).\<close>

definition row_series :: "grid \<Rightarrow> nat \<Rightarrow> (nat \<times> cell) list" where
  "row_series g r = map (\<lambda>c. (c, cells g r c)) [0..<ncols g]"

text \<open>A \<^verbatim>\<open>for\<close> loop whose body may raise: the first error ends the loop.\<close>

fun for_each :: "'a list \<Rightarrow> ('a \<Rightarrow> 's \<Rightarrow> error + 's) \<Rightarrow> 's \<Rightarrow> error + 's" where
  "for_each [] body s = Inr s"
| "for_each (x # xs) body s =
     (case body x s of Inl e \<Rightarrow> Inl e | Inr s' \<Rightarrow> for_each xs body s')"


section \<open>Locating defects\<close>

text \<open>
  \<^verbatim>\<open>Series.str.contains(pat, na=False)\<close> reads \<open>pat\<close> as a regular expression: it compiles
  the pattern once, which raises \<^verbatim>\<open>re.error\<close> for a malformed one (a lone opening
  parenthesis), and then searches every cell text with the compiled pattern.  The
  regular-expression engine is Python's library, not this program, so it is a parameter of
  the model: \<open>re_compile pat\<close> is either the error or the search predicate of the pattern.
\<close>

type_synonym regex_engine = "string \<Rightarrow> error + (string \<Rightarrow> bool)"

definition find_defect_column :: "regex_engine \<Rightarrow> grid \<Rightarrow> string \<Rightarrow> error + nat option" where
  "find_defect_column re_compile g defect_name =
     (if 15 \<ge> nrows g then Inr None
      else
        let defect_row = row_series g 15
        in (case re_compile (str_lower defect_name) of
              Inl e \<Rightarrow> Inl e
            | Inr search \<Rightarrow>
                let matches = filter (\<lambda>(col, v). notna v \<and> search (str_lower (str_of v)))
                                defect_row
                in (case matches of [] \<Rightarrow> Inr None | (col, v) # rest \<Rightarrow> Inr (Some col))))"

definition list_all_defects :: "grid \<Rightarrow> (nat \<times> string) list" where
  "list_all_defects g =
     (if 15 \<ge> nrows g then []
      else
        let defect_row = row_series g 15;
            valid_defects = filter (\<lambda>(col, v). notna v \<and> str_strip (str_of v) \<noteq> []) defect_row;
            valid_defects = filter (\<lambda>(col, v). col \<ge> 78) valid_defects
        in map (\<lambda>(col, v). (col, str_strip (str_of v))) valid_defects)"


section \<open>Sub-assemblies of a defect column\<close>

definition sous_ensembles_body :: "grid \<Rightarrow> nat \<Rightarrow> nat \<Rightarrow> string list \<Rightarrow> error + string list" where
  "sous_ensembles_body g defect_col row_idx acc =
     (if row_idx < nrows g \<and> defect_col < ncols g then
        (case iloc g row_idx defect_col of
           Inl e \<Rightarrow> Inl e
         | Inr cell \<Rightarrow>
             if notna cell \<and> str_strip (str_of cell) = target_marker then
               (case (if 75 < ncols g then iloc g row_idx 75 else Inr None) of
                  Inl e \<Rightarrow> Inl e
                | Inr sub_name \<Rightarrow>
                    if notna sub_name then
                      (let name = str_strip (str_of sub_name)
                       in if name \<noteq> [] \<and> name \<notin> set acc then Inr (acc @ [name]) else Inr acc)
                    else Inr acc)
             else Inr acc)
      else Inr acc)"

definition get_sous_ensembles :: "grid \<Rightarrow> nat \<Rightarrow> error + string list" where
  "get_sous_ensembles g defect_col =
     (case for_each [3..<15] (sous_ensembles_body g defect_col) [] of
        Inl e \<Rightarrow> Inl e
      | Inr acc \<Rightarrow>
          if acc = [] then
            (case (if 75 < ncols g then iloc g 13 75 else Inr None) of
               Inl e \<Rightarrow> Inl e
             | Inr sub_name \<Rightarrow>
                 if notna sub_name then Inr (acc @ [str_strip (str_of sub_name)]) else Inr acc)
          else Inr acc)"


section \<open>Components and parameters of a sub-assembly\<close>

text \<open>
  The row search that opens both \<^verbatim>\<open>get_composants\<close> and \<^verbatim>\<open>get_parametres\<close>: the first
  row of the given range whose label in column 75 trims to the sub-assembly name
  (\<^verbatim>\<open>break\<close> on the first hit).  The row index is not checked against the frame.
\<close>

fun find_sub_row :: "grid \<Rightarrow> string \<Rightarrow> nat list \<Rightarrow> error + nat option" where
  "find_sub_row g sous_ensemble_name [] = Inr None"
| "find_sub_row g sous_ensemble_name (row_idx # rows) =
     (case (if 75 < ncols g then iloc g row_idx 75 else Inr None) of
        Inl e \<Rightarrow> Inl e
      | Inr sub_name \<Rightarrow>
          if notna sub_name \<and> str_strip (str_of sub_name) = sous_ensemble_name
          then Inr (Some row_idx)
          else find_sub_row g sous_ensemble_name rows)"

definition composants_body :: "grid \<Rightarrow> nat \<Rightarrow> nat \<Rightarrow> string list \<Rightarrow> error + string list" where
  "composants_body g sub_row_idx col components =
     (if col < ncols g then
        (case iloc g sub_row_idx col of
           Inl e \<Rightarrow> Inl e
         | Inr v \<Rightarrow>
             let marker = str_strip (str_of v)
             in if marker \<in> set markers then
                  (case (if col < ncols g then iloc g 15 col else Inr None) of
                     Inl e \<Rightarrow> Inl e
                   | Inr component \<Rightarrow>
                       if notna component then
                         (let comp_name = str_strip (str_of component)
                          in if comp_name \<notin> set markers \<and> comp_name \<noteq> []
                             then Inr (components @ [comp_name]) else Inr components)
                       else Inr components)
                else Inr components)
      else Inr components)"

definition get_composants :: "grid \<Rightarrow> string \<Rightarrow> error + string list" where
  "get_composants g sous_ensemble_name =
     (case find_sub_row g sous_ensemble_name [3..<14] of
        Inl e \<Rightarrow> Inl e
      | Inr None \<Rightarrow> Inr []
      | Inr (Some sub_row_idx) \<Rightarrow> for_each [0..<74] (composants_body g sub_row_idx) [])"

record parameter =
  param_name :: string
  param_value :: string
  param_components :: "string list"

definition component_cols_body :: "grid \<Rightarrow> nat \<Rightarrow> nat \<Rightarrow> nat list \<Rightarrow> error + nat list" where
  "component_cols_body g sub_row_idx col component_cols =
     (if col < ncols g then
        (case iloc g sub_row_idx col of
           Inl e \<Rightarrow> Inl e
         | Inr v \<Rightarrow>
             let marker = str_strip (str_of v)
             in if marker \<in> set markers then Inr (component_cols @ [col])
                else Inr component_cols)
      else Inr component_cols)"

definition linked_body :: "grid \<Rightarrow> nat \<Rightarrow> nat \<Rightarrow> string list \<Rightarrow> error + string list" where
  "linked_body g row_idx col linked_components =
     (if col < ncols g then
        (case iloc g row_idx col of
           Inl e \<Rightarrow> Inl e
         | Inr cell \<Rightarrow>
             if notna cell \<and> str_strip (str_of cell) \<in> set param_markers then
               (case (if col < ncols g then iloc g 15 col else Inr None) of
                  Inl e \<Rightarrow> Inl e
                | Inr comp_name \<Rightarrow>
                    if notna comp_name then
                      (let comp_name_str = str_strip (str_of comp_name)
                       in if comp_name_str \<notin> set markers \<and> comp_name_str \<noteq> []
                          then Inr (linked_components @ [comp_name_str])
                          else Inr linked_components)
                    else Inr linked_components)
             else Inr linked_components)
      else Inr linked_components)"

definition parametres_body ::
    "grid \<Rightarrow> nat list \<Rightarrow> nat \<Rightarrow> parameter list \<Rightarrow> error + parameter list" where
  "parametres_body g component_cols row_idx parameters =
     (case (if 75 < ncols g then iloc g row_idx 75 else Inr None) of
        Inl e \<Rightarrow> Inl e
      | Inr pname \<Rightarrow>
          (case (if 76 < ncols g then iloc g row_idx 76 else Inr None) of
             Inl e \<Rightarrow> Inl e
           | Inr pvalue \<Rightarrow>
               if notna pname then
                 (let param_name_str = str_strip (str_of pname);
                      param_value_str = (if notna pvalue then str_strip (str_of pvalue) else [])
                  in case for_each component_cols (linked_body g row_idx) [] of
                       Inl e \<Rightarrow> Inl e
                     | Inr linked_components \<Rightarrow>
                         if linked_components \<noteq> [] \<and> param_name_str \<notin> set markers
                            \<and> param_name_str \<noteq> []
                         then Inr (parameters @
                                [\<lparr>param_name = param_name_str, param_value = param_value_str,
                                  param_components = linked_components\<rparr>])
                         else Inr parameters)
               else Inr parameters))"

definition get_parametres :: "grid \<Rightarrow> string \<Rightarrow> error + parameter list" where
  "get_parametres g sous_ensemble_name =
     (if sous_ensemble_name = [] then Inr []
      else
        (case find_sub_row g sous_ensemble_name [3..<14] of
           Inl e \<Rightarrow> Inl e
         | Inr None \<Rightarrow> Inr []
         | Inr (Some sub_row_idx) \<Rightarrow>
             (case for_each [0..<74] (component_cols_body g sub_row_idx) [] of
                Inl e \<Rightarrow> Inl e
              | Inr component_cols \<Rightarrow>
                  for_each [17..<nrows g] (parametres_body g component_cols) [])))"


section \<open>The unfiltered hierarchy\<close>

record hierarchy =
  h_defect_name :: string
  h_defect_column :: nat
  h_sous_ensembles :: "string list"
  h_composants :: "string list"
  h_parametres :: "parameter list"

text \<open>
  The dictionary returned by \<^verbatim>\<open>analyze_defect\<close> has either the keys \<^verbatim>\<open>error\<close> and
  \<^verbatim>\<open>defect_name\<close>, or the five keys of the hierarchy.
\<close>

datatype analysis = Error_result string string | Found hierarchy

definition error_message :: "string \<Rightarrow> string" where
  "error_message defect_name =
     ''D'' @ [CHR 0xE9] @ ''faut '' @ [CHR 0x22] @ defect_name @ [CHR 0x22]
       @ '' introuvable dans la matrice''"

text \<open>Order-preserving deduplication with a \<^verbatim>\<open>seen\<close> set.\<close>

definition dedup_body :: "string \<Rightarrow> string set \<times> string list \<Rightarrow> string set \<times> string list" where
  "dedup_body compo st =
     (case st of (seen, uniques) \<Rightarrow>
        if compo \<notin> seen then (insert compo seen, uniques @ [compo]) else (seen, uniques))"

definition dedup :: "string list \<Rightarrow> string list" where
  "dedup comps = snd (fold dedup_body comps ({}, []))"

definition analyze_body ::
    "grid \<Rightarrow> string \<Rightarrow> string list \<times> parameter list \<Rightarrow> error + string list \<times> parameter list" where
  "analyze_body g se st =
     (case st of (composants, parametres) \<Rightarrow>
        (case get_composants g se of
           Inl e \<Rightarrow> Inl e
         | Inr cs \<Rightarrow>
             (case get_parametres g se of
                Inl e \<Rightarrow> Inl e
              | Inr ps \<Rightarrow> Inr (composants @ cs, parametres @ ps))))"

definition analyze_defect :: "regex_engine \<Rightarrow> grid \<Rightarrow> string \<Rightarrow> error + analysis" where
  "analyze_defect re_compile g defect_name =
     (case find_defect_column re_compile g defect_name of
        Inl e \<Rightarrow> Inl e
      | Inr None \<Rightarrow> Inr (Error_result (error_message defect_name) defect_name)
      | Inr (Some defect_col) \<Rightarrow>
          (case get_sous_ensembles g defect_col of
             Inl e \<Rightarrow> Inl e
           | Inr ses \<Rightarrow>
               (case for_each ses (analyze_body g) ([], []) of
                  Inl e \<Rightarrow> Inl e
                | Inr (composants, parametres) \<Rightarrow>
                    Inr (Found \<lparr>h_defect_name = defect_name, h_defect_column = defect_col,
                                h_sous_ensembles = ses, h_composants = dedup composants,
                                h_parametres = parametres\<rparr>))))"


section \<open>Cell colours\<close>

text \<open>
  The colour information comes from the xlrd workbook, which is outside this program.  Of a
  sheet the code uses \<^verbatim>\<open>sheet.cell(r, c)\<close>, which raises outside the sheet and otherwise
  yields a cell that is of type text (with its value) or not, and the background pattern
  colour index of the cell's format record, whose lookup may raise as well.  The colour
  source is \<open>None\<close> when \<^verbatim>\<open>_get_xlrd_objects\<close> could not open the workbook.
\<close>

record xlrd_sheet =
  sheet_cell :: "nat \<Rightarrow> nat \<Rightarrow> error + string option"
  pattern_colour_index :: "nat \<Rightarrow> nat \<Rightarrow> error + nat"

type_synonym color_source = "xlrd_sheet option"

fun find_color_row :: "xlrd_sheet \<Rightarrow> string \<Rightarrow> nat list \<Rightarrow> error + nat option" where
  "find_color_row sheet row_name [] = Inr None"
| "find_color_row sheet row_name (r # rs) =
     (case sheet_cell sheet r 75 of
        Inl e \<Rightarrow> Inl e
      | Inr None \<Rightarrow> find_color_row sheet row_name rs
      | Inr (Some v) \<Rightarrow>
          if str_strip v = row_name then Inr (Some r) else find_color_row sheet row_name rs)"

text \<open>
  \<^verbatim>\<open>get_cell_color\<close> returns a pair of which every caller keeps the first component, the
  colour index or \<^verbatim>\<open>None\<close>; the model returns that component.  Every exception is caught
  and gives \<^verbatim>\<open>None\<close>.
\<close>

definition get_cell_color :: "color_source \<Rightarrow> string \<Rightarrow> nat \<Rightarrow> nat option" where
  "get_cell_color src row_name col_idx =
     (case src of
        None \<Rightarrow> None
      | Some sheet \<Rightarrow>
          (case find_color_row sheet row_name [3..<15] of
             Inl e \<Rightarrow> None
           | Inr None \<Rightarrow> None
           | Inr (Some row_idx) \<Rightarrow>
               (case pattern_colour_index sheet row_idx col_idx of
                  Inl e \<Rightarrow> None
                | Inr bg_color_index \<Rightarrow> Some bg_color_index)))"

definition get_component_color :: "color_source \<Rightarrow> string \<Rightarrow> nat \<Rightarrow> nat option" where
  "get_component_color src row_name col_idx = get_cell_color src row_name col_idx"


section \<open>The colour-filtered hierarchy\<close>

record filtered_hierarchy =
  fh_defect_name :: string
  fh_defect_column :: "nat option"
  fh_sous_ensembles :: "string list"
  fh_bonnes_composants :: "string list"
  fh_parametres :: "parameter list"

definition comp_cols_body :: "grid \<Rightarrow> string \<Rightarrow> nat \<Rightarrow> nat list \<Rightarrow> error + nat list" where
  "comp_cols_body g comp_name col comp_cols =
     (case iloc g 15 col of
        Inl e \<Rightarrow> Inl e
      | Inr cell_val \<Rightarrow>
          if notna cell_val \<and> str_strip (str_of cell_val) = comp_name
          then Inr (comp_cols @ [col]) else Inr comp_cols)"

definition colour_match_body ::
    "color_source \<Rightarrow> string \<Rightarrow> nat option \<Rightarrow> string \<Rightarrow> nat \<Rightarrow> string list \<Rightarrow> string list" where
  "colour_match_body src se color_idx compo comp_col bonnes =
     (if get_component_color src se comp_col = color_idx then bonnes @ [compo] else bonnes)"

definition bonnes_comp_body ::
    "color_source \<Rightarrow> grid \<Rightarrow> string \<Rightarrow> nat option \<Rightarrow> string \<Rightarrow> string list \<Rightarrow> error + string list" where
  "bonnes_comp_body src g se color_idx compo bonnes =
     (case for_each [0..<74] (comp_cols_body g (str_strip compo)) [] of
        Inl e \<Rightarrow> Inl e
      | Inr comp_cols \<Rightarrow> Inr (fold (colour_match_body src se color_idx compo) comp_cols bonnes))"

text \<open>
  The \<^verbatim>\<open>color_cache\<close> dictionary stores, per sub-assembly, the result of a lookup that
  depends on nothing else; the model calls the lookup.
\<close>

definition bonnes_se_body ::
    "color_source \<Rightarrow> grid \<Rightarrow> nat \<Rightarrow> string list \<Rightarrow> string \<Rightarrow> string list \<Rightarrow> error + string list" where
  "bonnes_se_body src g defect_col composants se bonnes =
     (let color_idx = get_cell_color src se defect_col
      in for_each composants (bonnes_comp_body src g se color_idx) bonnes)"

definition param_filter_body :: "string set \<Rightarrow> parameter \<Rightarrow> parameter list \<Rightarrow> parameter list" where
  "param_filter_body bons_comp_set param parametres_filtres =
     (let linked_in_good = filter (\<lambda>c. c \<in> bons_comp_set) (param_components param)
      in if linked_in_good \<noteq> []
         then parametres_filtres @
                [\<lparr>param_name = param_name param, param_value = param_value param,
                  param_components = linked_in_good\<rparr>]
         else parametres_filtres)"

definition get_filtered_hierarchy ::
    "regex_engine \<Rightarrow> color_source \<Rightarrow> grid \<Rightarrow> string \<Rightarrow> error + filtered_hierarchy" where
  "get_filtered_hierarchy re_compile src g defect_name =
     (case analyze_defect re_compile g defect_name of
        Inl e \<Rightarrow> Inl e
      | Inr (Error_result msg dn) \<Rightarrow>
          Inr \<lparr>fh_defect_name = defect_name, fh_defect_column = None, fh_sous_ensembles = [],
               fh_bonnes_composants = [], fh_parametres = []\<rparr>
      | Inr (Found result) \<Rightarrow>
          (let ses = h_sous_ensembles result;
               defect_col = h_defect_column result
           in case for_each ses (bonnes_se_body src g defect_col (h_composants result)) [] of
                Inl e \<Rightarrow> Inl e
              | Inr bonnes_composants \<Rightarrow>
                  (let bonnes_composants_uniques = dedup bonnes_composants;
                       bons_comp_set = set bonnes_composants_uniques;
                       parametres_filtres =
                         fold (param_filter_body bons_comp_set) (h_parametres result) []
                   in Inr \<lparr>fh_defect_name = defect_name, fh_defect_column = Some defect_col,
                           fh_sous_ensembles = ses,
                           fh_bonnes_composants = bonnes_composants_uniques,
                           fh_parametres = parametres_filtres\<rparr>)))"


section \<open>What the resolvers compute\<close>

text \<open>
  The functions of this section state the results of the resolvers without loops and
  without errors.  A cell outside the frame reads as an absent cell, and \<open>trimmed\<close> is the
  trimmed text of a cell, empty for an absent one.
\<close>

definition cell_at :: "grid \<Rightarrow> nat \<Rightarrow> nat \<Rightarrow> cell" where
  "cell_at g r c = (if r < nrows g \<and> c < ncols g then cells g r c else None)"

definition trimmed :: "grid \<Rightarrow> nat \<Rightarrow> nat \<Rightarrow> string" where
  "trimmed g r c = (case cell_at g r c of None \<Rightarrow> [] | Some s \<Rightarrow> str_strip s)"

text \<open>
  Order-preserving deduplication: every element once, at the place of its first occurrence.
  \<open>add_new\<close> is one step of the loops that append a name unless it is already present.
\<close>

fun first_occurrences :: "'a list \<Rightarrow> 'a list" where
  "first_occurrences [] = []"
| "first_occurrences (x # xs) = x # first_occurrences (filter (\<lambda>y. y \<noteq> x) xs)"

definition add_new :: "'a \<Rightarrow> 'a list \<Rightarrow> 'a list" where
  "add_new x acc = (if x \<in> set acc then acc else acc @ [x])"

text \<open>
  The sub-assembly names of the marker loop: the labels (column 75) of the rows 3 to 14 whose
  cell in the defect column trims to the marker, without the empty labels, first occurrences
  only.
\<close>

definition marker_loop_names :: "grid \<Rightarrow> nat \<Rightarrow> string list" where
  "marker_loop_names g defect_col =
     first_occurrences
       (filter (\<lambda>name. name \<noteq> [])
          (map (\<lambda>row. trimmed g row 75)
             (filter (\<lambda>row. trimmed g row defect_col = target_marker) [3..<15])))"

text \<open>
  \<open>label_is g name row\<close>: the label of the row is present and trims to the name.
  \<open>component_columns\<close> are the columns 0 to 73 in which the sub-assembly row holds one of
  the four markers, \<open>display_names\<close> the names of row 15 in the given columns, empty names
  and marker strings skipped, and \<open>linked_components\<close> those names for the columns in which
  the parameter row holds one of the two parameter markers.
\<close>

definition label_is :: "grid \<Rightarrow> string \<Rightarrow> nat \<Rightarrow> bool" where
  "label_is g name row = (case cell_at g row 75 of None \<Rightarrow> False | Some s \<Rightarrow> str_strip s = name)"

definition component_columns :: "grid \<Rightarrow> nat \<Rightarrow> nat list" where
  "component_columns g sub_row = filter (\<lambda>col. trimmed g sub_row col \<in> set markers) [0..<74]"

definition display_names :: "grid \<Rightarrow> nat list \<Rightarrow> string list" where
  "display_names g cols =
     filter (\<lambda>name. name \<noteq> [] \<and> name \<notin> set markers) (map (\<lambda>col. trimmed g 15 col) cols)"

definition linked_components :: "grid \<Rightarrow> nat list \<Rightarrow> nat \<Rightarrow> string list" where
  "linked_components g cols row =
     display_names g (filter (\<lambda>col. trimmed g row col \<in> set param_markers) cols)"

definition parameter_of_row :: "grid \<Rightarrow> nat list \<Rightarrow> nat \<Rightarrow> parameter" where
  "parameter_of_row g cols row =
     \<lparr>param_name = trimmed g row 75, param_value = trimmed g row 76,
      param_components = linked_components g cols row\<rparr>"


text \<open>
  The parameters the code emits: the name must also not be one of the marker strings.
\<close>

definition emitted_parametres :: "grid \<Rightarrow> nat \<Rightarrow> parameter list" where
  "emitted_parametres g sub_row =
     (let cols = component_columns g sub_row
      in map (parameter_of_row g cols)
           (filter (\<lambda>row. trimmed g row 75 \<noteq> [] \<and> trimmed g row 75 \<notin> set markers
                          \<and> linked_components g cols row \<noteq> [])
              [17..<nrows g]))"

text \<open>
  The resolvers as functions of the sub-assembly name, for frames on which they do not
  raise, and the sub-assemblies of a defect column with the fallback to the label of row 13.
\<close>

definition components_of :: "grid \<Rightarrow> string \<Rightarrow> string list" where
  "components_of g name =
     (case find (label_is g name) [3..<14] of
        None \<Rightarrow> []
      | Some sub_row \<Rightarrow> display_names g (component_columns g sub_row))"

definition parameters_of :: "grid \<Rightarrow> string \<Rightarrow> parameter list" where
  "parameters_of g name =
     (if name = [] then []
      else case find (label_is g name) [3..<14] of
             None \<Rightarrow> []
           | Some sub_row \<Rightarrow> emitted_parametres g sub_row)"

definition fallback_names :: "grid \<Rightarrow> string list" where
  "fallback_names g = (case cell_at g 13 75 of None \<Rightarrow> [] | Some s \<Rightarrow> [str_strip s])"

definition sub_assemblies_of :: "grid \<Rightarrow> nat \<Rightarrow> string list" where
  "sub_assemblies_of g defect_col =
     (if marker_loop_names g defect_col \<noteq> [] then marker_loop_names g defect_col
      else fallback_names g)"

text \<open>
  \<open>names_column g comp_name col\<close>: the cell of row 15 in the column is present and trims to
  the component name.  \<open>restrict_parameters\<close> keeps the parameters with a linked component
  among the given ones and reduces their linked components to those.
\<close>

definition names_column :: "grid \<Rightarrow> string \<Rightarrow> nat \<Rightarrow> bool" where
  "names_column g comp_name col =
     (case cell_at g 15 col of None \<Rightarrow> False | Some s \<Rightarrow> str_strip s = comp_name)"

definition restrict_parameters :: "string list \<Rightarrow> parameter list \<Rightarrow> parameter list" where
  "restrict_parameters bons ps =
     map (\<lambda>p. p\<lparr>param_components := filter (\<lambda>c. c \<in> set bons) (param_components p)\<rparr>)
       (filter (\<lambda>p. set (param_components p) \<inter> set bons \<noteq> {}) ps)"

definition unfiltered_parametres :: "regex_engine \<Rightarrow> grid \<Rightarrow> string \<Rightarrow> parameter list" where
  "unfiltered_parametres re_compile g defect_name =
     (case analyze_defect re_compile g defect_name of
        Inr (Found r) \<Rightarrow> h_parametres r
      | _ \<Rightarrow> [])"

definition unfiltered_composants :: "regex_engine \<Rightarrow> grid \<Rightarrow> string \<Rightarrow> string list" where
  "unfiltered_composants re_compile g defect_name =
     (case analyze_defect re_compile g defect_name of
        Inr (Found r) \<Rightarrow> h_composants r
      | _ \<Rightarrow> [])"

text \<open>
  The columns of a component whose colour is the colour of the sub-assembly at the defect
  column, and the validated components before deduplication: for every sub-assembly and
  component, one occurrence of the component per matching column.
\<close>

definition matching_columns :: "color_source \<Rightarrow> grid \<Rightarrow> string \<Rightarrow> nat \<Rightarrow> string \<Rightarrow> nat list" where
  "matching_columns src g se defect_col compo =
     filter (\<lambda>comp_col. get_component_color src se comp_col = get_cell_color src se defect_col)
       (filter (names_column g (str_strip compo)) [0..<74])"

definition validated_occurrences ::
    "color_source \<Rightarrow> grid \<Rightarrow> nat \<Rightarrow> string list \<Rightarrow> string list \<Rightarrow> string list" where
  "validated_occurrences src g defect_col ses comps =
     concat (map (\<lambda>se.
       concat (map (\<lambda>compo. map (\<lambda>comp_col. compo) (matching_columns src g se defect_col compo))
                 comps)) ses)"


section \<open>Concrete matrices\<close>

text \<open>
  The regular-expression engine on patterns without metacharacters: such a pattern compiles,
  and its search is the substring test.  Patterns with a metacharacter are not covered and
  are given as rejected here; the defect names used with the matrices below ("bolt",
  "crack", "rust") have none.  What the search does with a name depends on the engine at
  that one pattern only (\<open>find_defect_column_engine\<close>).
\<close>

definition metacharacters :: string where
  "metacharacters = ''.^$*+?{}[]|()'' @ [CHR 0x5C]"

definition plain_pattern :: "string \<Rightarrow> bool" where
  "plain_pattern pat = list_all (\<lambda>c. c \<notin> set metacharacters) pat"

definition literal_re :: regex_engine where
  "literal_re pat = (if plain_pattern pat then Inr (str_contains pat) else Inl ReError)"

text \<open>A frame of the given size whose listed cells hold text and whose other cells are missing.\<close>

definition mk_grid :: "nat \<Rightarrow> nat \<Rightarrow> ((nat \<times> nat) \<times> string) list \<Rightarrow> grid" where
  "mk_grid nr nc entries = \<lparr>nrows = nr, ncols = nc, cells = (\<lambda>r c. map_of entries (r, c))\<rparr>"

definition housing_grid :: grid where
  "housing_grid = mk_grid 21 81
     [((15, 80), ''Crack''), ((5, 80), [CHR 0xE7]), ((5, 75), ''Housing''),
      ((5, 10), [CHR 0xEA]), ((15, 10), ''Bolt''),
      ((20, 75), ''Torque''), ((20, 76), ''Retighten to 10Nm''), ((20, 10), [CHR 0xE8])]"

definition name_clash_grid :: grid where
  "name_clash_grid = mk_grid 16 81 [((15, 10), ''Bolt''), ((15, 80), ''Bolt crack'')]"

definition short_grid :: grid where
  "short_grid = mk_grid 10 80 []"

definition no_names_row_grid :: grid where
  "no_names_row_grid = mk_grid 15 80 [((5, 75), ''Housing''), ((5, 10), [CHR 0xEA])]"

definition blank_label_grid :: grid where
  "blank_label_grid = mk_grid 16 80 [((13, 75), '' '')]"

definition repeated_label_grid :: grid where
  "repeated_label_grid = mk_grid 21 81
     [((15, 80), ''Crack''), ((5, 80), [CHR 0xE7]), ((5, 75), ''Housing''),
      ((6, 80), [CHR 0xE7]), ((6, 75), ''Cover''),
      ((7, 80), [CHR 0xE7]), ((7, 75), '' Cover '')]"

definition shared_row_grid :: grid where
  "shared_row_grid = mk_grid 21 81
     [((15, 80), ''Crack''), ((5, 80), [CHR 0xE7]), ((5, 75), ''Housing''),
      ((6, 80), [CHR 0xE7]), ((6, 75), ''Cover''),
      ((5, 10), [CHR 0xEA]), ((6, 10), [CHR 0xEA]), ((15, 10), ''Bolt''),
      ((20, 75), ''Torque''), ((20, 76), ''Retighten to 10Nm''), ((20, 10), [CHR 0xE8])]"


definition two_component_grid :: grid where
  "two_component_grid = mk_grid 21 81
     [((15, 80), ''Crack''), ((5, 80), [CHR 0xE7]), ((5, 75), ''Housing''),
      ((5, 10), [CHR 0xEA]), ((5, 11), [CHR 0xEA]), ((15, 10), ''Bolt''), ((15, 11), ''Nut''),
      ((20, 75), ''Torque''), ((20, 76), ''Retighten to 10Nm''),
      ((20, 10), [CHR 0xE8]), ((20, 11), [CHR 0xE8])]"

text \<open>
  A workbook sheet of 21 rows and 81 columns whose only text cell is the label "Housing" of
  row 5; the cells of column 11 have background colour 7, all others colour 5.
\<close>

definition two_component_sheet :: xlrd_sheet where
  "two_component_sheet =
     \<lparr>sheet_cell = (\<lambda>r c. if r < 21 \<and> c < 81
                            then Inr (if (r, c) = (5, 75) then Some ''Housing'' else None)
                            else Inl IndexError),
      pattern_colour_index = (\<lambda>r c. Inr (if c = 11 then 7 else 5))\<rparr>"


section \<open>Loops as list functions\<close>

text \<open>The ranges of the layout stay folded in the proofs below.\<close>

declare upt_rec_numeral [simp del]

lemma for_each_pure:
  assumes "\<And>x s. x \<in> set xs \<Longrightarrow> body x s = Inr (f x s)"
  shows "for_each xs body s = Inr (fold f xs s)"
  using assms by (induction xs arbitrary: s) simp_all

lemma concat_map_if: "concat (map (\<lambda>x. if P x then [f x] else []) xs) = map f (filter P xs)"
  by (induction xs) simp_all

lemma set_first_occurrences [simp]: "set (first_occurrences xs) = set xs"
  by (induction xs rule: first_occurrences.induct) auto

lemma distinct_first_occurrences [simp]: "distinct (first_occurrences xs)"
  by (induction xs rule: first_occurrences.induct) auto

lemma fold_add_new:
  "fold add_new xs acc = acc @ first_occurrences (filter (\<lambda>x. x \<notin> set acc) xs)"
proof (induction xs arbitrary: acc)
  case Nil
  then show ?case by simp
next
  case (Cons x xs)
  show ?case
  proof (cases "x \<in> set acc")
    case True
    then have "add_new x acc = acc" by (simp add: add_new_def)
    with True show ?thesis by (simp add: Cons.IH)
  next
    case False
    have "filter (\<lambda>y. y \<notin> set (acc @ [x])) xs = filter (\<lambda>y. y \<noteq> x) (filter (\<lambda>y. y \<notin> set acc) xs)"
      by (induction xs) auto
    moreover from False have "add_new x acc = acc @ [x]" by (simp add: add_new_def)
    ultimately show ?thesis using False by (simp add: Cons.IH)
  qed
qed

lemma fold_add_new_if:
  "fold (\<lambda>r acc. if P r then add_new (l r) acc else acc) rows acc = fold add_new (map l (filter P rows)) acc"
  by (induction rows arbitrary: acc) simp_all


section \<open>The marker loop of the sub-assemblies\<close>

lemma target_marker_nonempty: "target_marker \<noteq> []"
  by (simp add: target_marker_def)

lemma sous_ensembles_body_eq:
  "sous_ensembles_body g defect_col row_idx acc =
     Inr (if trimmed g row_idx defect_col = target_marker \<and> trimmed g row_idx 75 \<noteq> []
          then add_new (trimmed g row_idx 75) acc else acc)"
  using target_marker_nonempty
  by (auto simp: sous_ensembles_body_def iloc_def trimmed_def cell_at_def notna_def str_of_def
      add_new_def Let_def split: option.splits)

lemma marker_loop_rows:
  "for_each rows (sous_ensembles_body g defect_col) [] =
     Inr (first_occurrences
       (filter (\<lambda>name. name \<noteq> [])
          (map (\<lambda>row. trimmed g row 75)
             (filter (\<lambda>row. trimmed g row defect_col = target_marker) rows))))"
proof -
  let ?P = "\<lambda>r. trimmed g r defect_col = target_marker \<and> trimmed g r 75 \<noteq> []"
  let ?l = "\<lambda>r. trimmed g r 75"
  have "for_each rows (sous_ensembles_body g defect_col) []
        = Inr (fold (\<lambda>r acc. if ?P r then add_new (?l r) acc else acc) rows [])"
    by (rule for_each_pure) (simp add: sous_ensembles_body_eq)
  also have "fold (\<lambda>r acc. if ?P r then add_new (?l r) acc else acc) rows []
        = first_occurrences (map ?l (filter ?P rows))"
    by (simp only: fold_add_new_if fold_add_new) simp
  also have "map ?l (filter ?P rows)
        = filter (\<lambda>name. name \<noteq> []) (map ?l (filter (\<lambda>r. trimmed g r defect_col = target_marker) rows))"
    by (simp only: filter_map comp_def filter_filter)
  finally show ?thesis .
qed

lemma marker_loop_eq:
  "for_each [3..<15] (sous_ensembles_body g defect_col) [] = Inr (marker_loop_names g defect_col)"
  unfolding marker_loop_names_def by (rule marker_loop_rows)


lemma concat_map_if2:
  "concat (map (\<lambda>x. if P x \<and> Q (f x) then [f x] else []) xs) = filter Q (map f (filter P xs))"
  by (induction xs) simp_all

lemma for_each_appends:
  assumes "\<And>x s. x \<in> set xs \<Longrightarrow> body x s = Inr (s @ h x)"
  shows "for_each xs body s = Inr (s @ concat (map h xs))"
  using assms by (induction xs arbitrary: s) simp_all


section \<open>The row search, components and parameters\<close>

lemma find_sub_row_Some:
  assumes "find_sub_row g name rows = Inr (Some r)"
  shows "r \<in> set rows \<and> r < nrows g \<and> 75 < ncols g \<and> label_is g name r"
  using assms
  by (induction rows)
     (auto simp: iloc_def label_is_def cell_at_def notna_def str_of_def
           split: if_splits option.splits)

lemma find_sub_row_tall:
  assumes "\<And>r. r \<in> set rows \<Longrightarrow> r < nrows g"
  shows "find_sub_row g name rows = Inr (find (label_is g name) rows)"
  using assms
  by (induction rows)
     (auto simp: iloc_def label_is_def cell_at_def notna_def str_of_def
           split: if_splits option.splits)

lemma markers_facts:
  "[] \<notin> set markers" "str_strip ''nan'' \<notin> set markers"
  "[] \<notin> set param_markers" "str_strip ''nan'' \<notin> set param_markers"
  by code_simp+

lemma strip_str_of_marker:
  "str_strip (str_of v) \<in> set markers \<longleftrightarrow> (case v of None \<Rightarrow> False | Some s \<Rightarrow> str_strip s \<in> set markers)"
  using markers_facts by (cases v) (simp_all add: str_of_def)

lemma trimmed_in_range:
  "r < nrows g \<Longrightarrow> c < ncols g \<Longrightarrow> trimmed g r c = (case cells g r c of None \<Rightarrow> [] | Some s \<Rightarrow> str_strip s)"
  by (simp add: trimmed_def cell_at_def)

lemma trimmed_out_of_range:
  "\<not> (r < nrows g \<and> c < ncols g) \<Longrightarrow> trimmed g r c = []"
  by (auto simp: trimmed_def cell_at_def)

lemma composants_body_eq:
  assumes "sub_row_idx < nrows g" "15 < nrows g"
  shows "composants_body g sub_row_idx col acc =
     Inr (acc @ (if trimmed g sub_row_idx col \<in> set markers
                    \<and> (trimmed g 15 col \<noteq> [] \<and> trimmed g 15 col \<notin> set markers)
                 then [trimmed g 15 col] else []))"
proof (cases "col < ncols g")
  case True
  with assms show ?thesis
    using markers_facts
    by (auto simp: composants_body_def iloc_def trimmed_in_range strip_str_of_marker notna_def
          str_of_def Let_def split: option.splits)
next
  case False
  with assms show ?thesis
    using markers_facts by (simp add: composants_body_def trimmed_out_of_range)
qed

lemma composants_loop_eq:
  assumes "sub_row_idx < nrows g" "15 < nrows g"
  shows "for_each cols (composants_body g sub_row_idx) [] =
     Inr (display_names g (filter (\<lambda>col. trimmed g sub_row_idx col \<in> set markers) cols))"
proof -
  have "for_each cols (composants_body g sub_row_idx) [] =
     Inr ([] @ concat (map (\<lambda>col. if trimmed g sub_row_idx col \<in> set markers
                    \<and> (trimmed g 15 col \<noteq> [] \<and> trimmed g 15 col \<notin> set markers)
                 then [trimmed g 15 col] else []) cols))"
    by (rule for_each_appends) (simp add: composants_body_eq [OF assms])
  then show ?thesis
    unfolding display_names_def
    by (simp only: append_Nil
          concat_map_if2 [of _ "\<lambda>name. name \<noteq> [] \<and> name \<notin> set markers" "\<lambda>col. trimmed g 15 col"])
qed


lemma component_cols_body_eq:
  assumes "sub_row_idx < nrows g"
  shows "component_cols_body g sub_row_idx col acc =
     Inr (acc @ (if trimmed g sub_row_idx col \<in> set markers then [col] else []))"
proof (cases "col < ncols g")
  case True
  with assms show ?thesis
    using markers_facts
    by (auto simp: component_cols_body_def iloc_def trimmed_in_range strip_str_of_marker
          Let_def split: option.splits)
next
  case False
  with assms show ?thesis
    using markers_facts by (simp add: component_cols_body_def trimmed_out_of_range)
qed

lemma component_cols_loop_eq:
  assumes "sub_row_idx < nrows g"
  shows "for_each cols (component_cols_body g sub_row_idx) [] =
     Inr (filter (\<lambda>col. trimmed g sub_row_idx col \<in> set markers) cols)"
proof -
  have "for_each cols (component_cols_body g sub_row_idx) [] =
     Inr ([] @ concat (map (\<lambda>col. if trimmed g sub_row_idx col \<in> set markers then [col] else []) cols))"
    by (rule for_each_appends) (simp add: component_cols_body_eq [OF assms])
  then show ?thesis
    by (simp only: append_Nil
          concat_map_if [of "\<lambda>col. trimmed g sub_row_idx col \<in> set markers" "\<lambda>col. col"] map_ident)
qed

lemma linked_body_eq:
  assumes "row_idx < nrows g" "15 < nrows g"
  shows "linked_body g row_idx col acc =
     Inr (acc @ (if trimmed g row_idx col \<in> set param_markers
                    \<and> (trimmed g 15 col \<noteq> [] \<and> trimmed g 15 col \<notin> set markers)
                 then [trimmed g 15 col] else []))"
proof (cases "col < ncols g")
  case True
  with assms show ?thesis
    using markers_facts
    by (auto simp: linked_body_def iloc_def trimmed_in_range notna_def
          str_of_def Let_def split: option.splits)
next
  case False
  with assms show ?thesis
    using markers_facts by (simp add: linked_body_def trimmed_out_of_range)
qed

lemma linked_loop_eq:
  assumes "row_idx < nrows g" "15 < nrows g"
  shows "for_each cols (linked_body g row_idx) [] = Inr (linked_components g cols row_idx)"
proof -
  have "for_each cols (linked_body g row_idx) [] =
     Inr ([] @ concat (map (\<lambda>col. if trimmed g row_idx col \<in> set param_markers
                    \<and> (trimmed g 15 col \<noteq> [] \<and> trimmed g 15 col \<notin> set markers)
                 then [trimmed g 15 col] else []) cols))"
    by (rule for_each_appends) (simp add: linked_body_eq [OF assms])
  then show ?thesis
    unfolding linked_components_def display_names_def
    by (simp only: append_Nil
          concat_map_if2 [of _ "\<lambda>name. name \<noteq> [] \<and> name \<notin> set markers" "\<lambda>col. trimmed g 15 col"])
qed

lemma parametres_body_eq:
  assumes "row_idx < nrows g" "15 < nrows g"
  shows "parametres_body g cols row_idx acc =
     Inr (acc @ (if trimmed g row_idx 75 \<noteq> [] \<and> trimmed g row_idx 75 \<notin> set markers
                    \<and> linked_components g cols row_idx \<noteq> []
                 then [parameter_of_row g cols row_idx] else []))"
proof -
  have c75: "(if 75 < ncols g then iloc g row_idx 75 else Inr None) = Inr (cell_at g row_idx 75)"
    using assms by (simp add: iloc_def cell_at_def)
  have c76: "(if 76 < ncols g then iloc g row_idx 76 else Inr None) = Inr (cell_at g row_idx 76)"
    using assms by (simp add: iloc_def cell_at_def)
  show ?thesis
    unfolding parametres_body_def c75 c76 linked_loop_eq [OF assms]
    by (auto simp: trimmed_def notna_def str_of_def parameter_of_row_def Let_def
          split: option.splits)
qed

lemma parametres_loop_eq:
  assumes "\<And>r. r \<in> set rows \<Longrightarrow> 15 < r \<and> r < nrows g"
  shows "for_each rows (parametres_body g cols) [] =
     Inr (map (parameter_of_row g cols)
            (filter (\<lambda>row. trimmed g row 75 \<noteq> [] \<and> trimmed g row 75 \<notin> set markers
                          \<and> linked_components g cols row \<noteq> []) rows))"
proof -
  have "for_each rows (parametres_body g cols) [] =
     Inr ([] @ concat (map (\<lambda>row. if trimmed g row 75 \<noteq> [] \<and> trimmed g row 75 \<notin> set markers
                    \<and> linked_components g cols row \<noteq> []
                 then [parameter_of_row g cols row] else []) rows))"
  proof (rule for_each_appends)
    fix x s
    assume "x \<in> set rows"
    from assms [OF this] have "x < nrows g" "15 < nrows g" by simp_all
    then show "parametres_body g cols x s =
       Inr (s @ (if trimmed g x 75 \<noteq> [] \<and> trimmed g x 75 \<notin> set markers
                    \<and> linked_components g cols x \<noteq> []
                 then [parameter_of_row g cols x] else []))"
      by (rule parametres_body_eq)
  qed
  then show ?thesis
    by (simp only: append_Nil concat_map_if)
qed

lemma get_parametres_found:
  assumes "sous_ensemble_name \<noteq> []"
    and "find_sub_row g sous_ensemble_name [3..<14] = Inr (Some sub_row)"
  shows "get_parametres g sous_ensemble_name = Inr (emitted_parametres g sub_row)"
proof -
  from find_sub_row_Some [OF assms(2)] have r: "sub_row < nrows g" by simp
  have "for_each [17..<nrows g] (parametres_body g (component_columns g sub_row)) [] =
      Inr (emitted_parametres g sub_row)"
    unfolding emitted_parametres_def Let_def
    by (rule parametres_loop_eq) simp
  then show ?thesis
    using assms
    by (simp add: get_parametres_def component_cols_loop_eq [OF r] component_columns_def
          del: upt_rec_numeral)
qed

lemma get_parametres_total:
  assumes "13 < nrows g"
  shows "get_parametres g name = Inr (parameters_of g name)"
proof (cases "name = []")
  case True
  then show ?thesis by (simp add: get_parametres_def parameters_of_def)
next
  case False
  have f: "find_sub_row g name [3..<14] = Inr (find (label_is g name) [3..<14])"
    by (rule find_sub_row_tall) (use assms in simp)
  show ?thesis
  proof (cases "find (label_is g name) [3..<14]")
    case None
    with f False show ?thesis
      by (simp add: get_parametres_def parameters_of_def del: upt_rec_numeral)
  next
    case (Some r)
    with f have "find_sub_row g name [3..<14] = Inr (Some r)" by simp
    from get_parametres_found [OF False this] Some False show ?thesis
      by (simp add: parameters_of_def del: upt_rec_numeral)
  qed
qed

lemma get_composants_total:
  assumes "15 < nrows g"
  shows "get_composants g name = Inr (components_of g name)"
proof -
  have f: "find_sub_row g name [3..<14] = Inr (find (label_is g name) [3..<14])"
    by (rule find_sub_row_tall) (use assms in simp)
  show ?thesis
  proof (cases "find (label_is g name) [3..<14]")
    case None
    with f show ?thesis
      by (simp add: get_composants_def components_of_def del: upt_rec_numeral)
  next
    case (Some r)
    with f have "find_sub_row g name [3..<14] = Inr (Some r)" by simp
    from find_sub_row_Some [OF this] have r: "r < nrows g" by simp
    from composants_loop_eq [OF r assms, of "[0..<74]"] f Some show ?thesis
      by (simp add: get_composants_def components_of_def component_columns_def
            del: upt_rec_numeral)
  qed
qed

lemma get_sous_ensembles_total:
  assumes "13 < nrows g"
  shows "get_sous_ensembles g defect_col = Inr (sub_assemblies_of g defect_col)"
proof -
  have "(if 75 < ncols g then iloc g 13 75 else Inr None) = Inr (cell_at g 13 75)"
    using assms by (simp add: iloc_def cell_at_def)
  then show ?thesis
    by (simp add: get_sous_ensembles_def marker_loop_eq sub_assemblies_of_def fallback_names_def
          notna_def str_of_def split: option.splits del: upt_rec_numeral)
qed

lemma find_defect_column_Some:
  assumes "find_defect_column re_compile g name = Inr (Some col)"
  shows "15 < nrows g \<and> col < ncols g"
proof -
  from assms have n: "15 < nrows g"
    by (auto simp: find_defect_column_def split: if_splits)
  from assms n obtain search where c: "re_compile (str_lower name) = Inr search"
    by (auto simp: find_defect_column_def Let_def split: sum.splits)
  let ?m = "filter (\<lambda>(col, v). notna v \<and> search (str_lower (str_of v))) (row_series g 15)"
  from assms n c obtain v rest where "?m = (col, v) # rest"
    by (auto simp: find_defect_column_def Let_def split: list.splits)
  then have "(col, v) \<in> set ?m" by simp
  then have "(col, v) \<in> set (row_series g 15)" by simp
  then have "col < ncols g" by (auto simp: row_series_def)
  with n show ?thesis by simp
qed

lemma find_defect_column_engine:
  assumes "re_compile (str_lower name) = other_compile (str_lower name)"
  shows "find_defect_column re_compile g name = find_defect_column other_compile g name"
  using assms by (simp add: find_defect_column_def)


section \<open>The hierarchy behind a successful search\<close>

lemma dedup_fold:
  "fold dedup_body xs (set u, u) = (set (fold add_new xs u), fold add_new xs u)"
proof (induction xs arbitrary: u)
  case Nil
  then show ?case by simp
next
  case (Cons x xs)
  have "dedup_body x (set u, u) = (set (add_new x u), add_new x u)"
    by (auto simp: dedup_body_def add_new_def)
  then show ?case by (simp add: Cons.IH)
qed

lemma dedup_eq: "dedup xs = first_occurrences xs"
  using dedup_fold [of xs "[]"] by (simp add: dedup_def fold_add_new)

lemma analyze_loop_eq:
  assumes "15 < nrows g"
  shows "for_each ses (analyze_body g) (cs, ps) =
     Inr (cs @ concat (map (components_of g) ses), ps @ concat (map (parameters_of g) ses))"
proof (induction ses arbitrary: cs ps)
  case Nil
  then show ?case by simp
next
  case (Cons se ses)
  from assms have "13 < nrows g" by simp
  then have "analyze_body g se (cs, ps) = Inr (cs @ components_of g se, ps @ parameters_of g se)"
    by (simp add: analyze_body_def get_composants_total [OF assms] get_parametres_total)
  then show ?case by (simp add: Cons.IH)
qed

lemma analyze_defect_found:
  assumes "find_defect_column re_compile g defect_name = Inr (Some defect_col)"
  shows "analyze_defect re_compile g defect_name =
     Inr (Found \<lparr>h_defect_name = defect_name, h_defect_column = defect_col,
                 h_sous_ensembles = sub_assemblies_of g defect_col,
                 h_composants =
                   first_occurrences (concat (map (components_of g) (sub_assemblies_of g defect_col))),
                 h_parametres = concat (map (parameters_of g) (sub_assemblies_of g defect_col))\<rparr>)"
proof -
  from find_defect_column_Some [OF assms] have n: "15 < nrows g" by simp
  then have "13 < nrows g" by simp
  from get_sous_ensembles_total [OF this]
  show ?thesis
    using assms by (simp add: analyze_defect_def analyze_loop_eq [OF n] dedup_eq)
qed

lemma analyze_defect_raises:
  assumes "find_defect_column re_compile g defect_name = Inl e"
  shows "analyze_defect re_compile g defect_name = Inl e"
  using assms by (simp add: analyze_defect_def)

lemma analyze_defect_returns:
  assumes "find_defect_column re_compile g defect_name = Inr c"
  shows "\<exists>a. analyze_defect re_compile g defect_name = Inr a"
proof (cases c)
  case None
  with assms show ?thesis by (simp add: analyze_defect_def)
next
  case (Some defect_col)
  with assms have "find_defect_column re_compile g defect_name = Inr (Some defect_col)"
    by simp
  from analyze_defect_found [OF this] show ?thesis by simp
qed

lemma param_filter_fold:
  "fold (param_filter_body (set bons)) ps acc = acc @ restrict_parameters bons ps"
proof (induction ps arbitrary: acc)
  case Nil
  then show ?case by (simp add: restrict_parameters_def)
next
  case (Cons p ps)
  have e: "(filter (\<lambda>c. c \<in> set bons) (param_components p) \<noteq> [])
           = (set (param_components p) \<inter> set bons \<noteq> {})"
    by (auto simp: filter_empty_conv)
  have r: "\<lparr>param_name = param_name p, param_value = param_value p,
            param_components = filter (\<lambda>c. c \<in> set bons) (param_components p)\<rparr>
         = p\<lparr>param_components := filter (\<lambda>c. c \<in> set bons) (param_components p)\<rparr>"
    by simp
  show ?case
  proof (cases "set (param_components p) \<inter> set bons \<noteq> {}")
    case True
    with e have "param_filter_body (set bons) p acc =
        acc @ [p\<lparr>param_components := filter (\<lambda>c. c \<in> set bons) (param_components p)\<rparr>]"
      by (simp add: param_filter_body_def Let_def r)
    with True show ?thesis
      by (simp add: Cons.IH restrict_parameters_def)
  next
    case False
    with e have "param_filter_body (set bons) p acc = acc"
      by (simp add: param_filter_body_def Let_def)
    with False show ?thesis
      by (simp add: Cons.IH restrict_parameters_def)
  qed
qed


lemma comp_cols_loop_eq:
  assumes "15 < nrows g" "\<And>c. c \<in> set cols \<Longrightarrow> c < ncols g"
  shows "for_each cols (comp_cols_body g comp_name) [] = Inr (filter (names_column g comp_name) cols)"
proof -
  have "for_each cols (comp_cols_body g comp_name) [] =
     Inr ([] @ concat (map (\<lambda>col. if names_column g comp_name col then [col] else []) cols))"
  proof (rule for_each_appends)
    fix x s
    assume "x \<in> set cols"
    with assms have "x < ncols g" "15 < nrows g" by simp_all
    then show "comp_cols_body g comp_name x s =
        Inr (s @ (if names_column g comp_name x then [x] else []))"
      by (auto simp: comp_cols_body_def iloc_def names_column_def cell_at_def notna_def str_of_def
            split: option.splits)
  qed
  then show ?thesis
    by (simp only: append_Nil concat_map_if [of "names_column g comp_name" "\<lambda>col. col"] map_ident)
qed

lemma colour_match_fold:
  "fold (colour_match_body src se color_idx compo) comp_cols bonnes =
     bonnes @ map (\<lambda>comp_col. compo)
                (filter (\<lambda>comp_col. get_component_color src se comp_col = color_idx) comp_cols)"
  by (induction comp_cols arbitrary: bonnes) (simp_all add: colour_match_body_def)

lemma bonnes_comp_body_eq:
  assumes "15 < nrows g" "74 \<le> ncols g"
  shows "bonnes_comp_body src g se (get_cell_color src se defect_col) compo bonnes =
     Inr (bonnes @ map (\<lambda>comp_col. compo) (matching_columns src g se defect_col compo))"
proof -
  have "for_each [0..<74] (comp_cols_body g (str_strip compo)) [] =
      Inr (filter (names_column g (str_strip compo)) [0..<74])"
    by (rule comp_cols_loop_eq) (use assms in simp_all)
  then show ?thesis
    by (simp add: bonnes_comp_body_def colour_match_fold matching_columns_def)
qed

lemma bonnes_se_body_eq:
  assumes "15 < nrows g" "comps = [] \<or> 74 \<le> ncols g"
  shows "bonnes_se_body src g defect_col comps se bonnes =
     Inr (bonnes @ concat (map (\<lambda>compo. map (\<lambda>comp_col. compo)
                                   (matching_columns src g se defect_col compo)) comps))"
proof (cases "comps = []")
  case True
  then show ?thesis by (simp add: bonnes_se_body_def)
next
  case False
  with assms have w: "74 \<le> ncols g" by simp
  show ?thesis
    unfolding bonnes_se_body_def Let_def
    by (rule for_each_appends) (simp add: bonnes_comp_body_eq [OF assms(1) w])
qed

lemma bonnes_loop_eq:
  assumes "15 < nrows g" "comps = [] \<or> 74 \<le> ncols g"
  shows "for_each ses (bonnes_se_body src g defect_col comps) [] =
     Inr (validated_occurrences src g defect_col ses comps)"
proof -
  have "for_each ses (bonnes_se_body src g defect_col comps) [] =
     Inr ([] @ concat (map (\<lambda>se. concat (map (\<lambda>compo. map (\<lambda>comp_col. compo)
                                   (matching_columns src g se defect_col compo)) comps)) ses))"
    by (rule for_each_appends) (simp add: bonnes_se_body_eq [OF assms])
  then show ?thesis by (simp add: validated_occurrences_def)
qed

lemma label_is_wide: "label_is g name r \<Longrightarrow> 75 < ncols g"
  by (auto simp: label_is_def cell_at_def split: option.splits if_splits)

lemma components_of_wide:
  assumes "components_of g se \<noteq> []"
  shows "75 < ncols g"
proof -
  from assms obtain r where "find (label_is g se) [3..<14] = Some r"
    by (auto simp: components_of_def split: option.splits)
  then have "label_is g se r" by (auto simp: find_Some_iff)
  then show ?thesis by (rule label_is_wide)
qed

lemma composants_wide:
  assumes "first_occurrences (concat (map (components_of g) ses)) \<noteq> []"
  shows "75 < ncols g"
proof -
  from assms have "concat (map (components_of g) ses) \<noteq> []"
    by (metis first_occurrences.simps(1))
  then obtain se where "components_of g se \<noteq> []" by auto
  then show ?thesis by (rule components_of_wide)
qed

lemma get_filtered_hierarchy_found:
  assumes "find_defect_column re_compile g defect_name = Inr (Some defect_col)"
  shows "get_filtered_hierarchy re_compile src g defect_name =
     Inr \<lparr>fh_defect_name = defect_name, fh_defect_column = Some defect_col,
          fh_sous_ensembles = sub_assemblies_of g defect_col,
          fh_bonnes_composants =
            first_occurrences (validated_occurrences src g defect_col
              (sub_assemblies_of g defect_col)
              (first_occurrences (concat (map (components_of g) (sub_assemblies_of g defect_col))))),
          fh_parametres =
            restrict_parameters
              (first_occurrences (validated_occurrences src g defect_col
                 (sub_assemblies_of g defect_col)
                 (first_occurrences (concat (map (components_of g) (sub_assemblies_of g defect_col))))))
              (concat (map (parameters_of g) (sub_assemblies_of g defect_col)))\<rparr>"
proof -
  let ?ses = "sub_assemblies_of g defect_col"
  let ?comps = "first_occurrences (concat (map (components_of g) ?ses))"
  from find_defect_column_Some [OF assms] have n: "15 < nrows g" by simp
  have w: "?comps = [] \<or> 74 \<le> ncols g"
    using composants_wide [of g ?ses] by fastforce
  have p: "fold (param_filter_body (set bons)) ps [] = restrict_parameters bons ps" for bons ps
    by (simp add: param_filter_fold)
  show ?thesis
    by (simp add: get_filtered_hierarchy_def analyze_defect_found [OF assms]
          bonnes_loop_eq [OF n w] dedup_eq p Let_def)
qed

lemma get_filtered_hierarchy_not_found:
  assumes "find_defect_column re_compile g defect_name = Inr None"
  shows "get_filtered_hierarchy re_compile src g defect_name =
     Inr \<lparr>fh_defect_name = defect_name, fh_defect_column = None, fh_sous_ensembles = [],
          fh_bonnes_composants = [], fh_parametres = []\<rparr>"
  using assms by (simp add: get_filtered_hierarchy_def analyze_defect_def)

lemma get_filtered_hierarchy_raises:
  assumes "find_defect_column re_compile g defect_name = Inl e"
  shows "get_filtered_hierarchy re_compile src g defect_name = Inl e"
  using assms by (simp add: get_filtered_hierarchy_def analyze_defect_def)

lemma get_filtered_hierarchy_returns:
  assumes "find_defect_column re_compile g defect_name = Inr c"
  shows "\<exists>fh. get_filtered_hierarchy re_compile src g defect_name = Inr fh"
proof (cases c)
  case None
  with assms show ?thesis by (simp add: get_filtered_hierarchy_not_found)
next
  case (Some defect_col)
  with assms have "find_defect_column re_compile g defect_name = Inr (Some defect_col)"
    by simp
  from get_filtered_hierarchy_found [OF this] show ?thesis by simp
qed

lemma analyze_defect_engine:
  assumes "re_compile (str_lower name) = other_compile (str_lower name)"
  shows "analyze_defect re_compile g name = analyze_defect other_compile g name"
  using find_defect_column_engine [of re_compile name other_compile g] assms
  by (simp add: analyze_defect_def)

lemma get_filtered_hierarchy_engine:
  assumes "re_compile (str_lower name) = other_compile (str_lower name)"
  shows "get_filtered_hierarchy re_compile src g name = get_filtered_hierarchy other_compile src g name"
  using analyze_defect_engine [of re_compile name other_compile g] assms
  by (simp add: get_filtered_hierarchy_def)

lemma literal_re_plain: "plain_pattern pat \<Longrightarrow> literal_re pat = Inr (str_contains pat)"
  by (simp add: literal_re_def)

text \<open>A lone opening parenthesis does not compile, and the hierarchy raises with the search.\<close>

lemma malformed_pattern_raises:
  "find_defect_column literal_re housing_grid ''('' = Inl ReError
   \<and> get_filtered_hierarchy literal_re None housing_grid ''('' = Inl ReError"
  by code_simp

section \<open>Every component has a column of its name\<close>

lemma dropWhile_hd_id: "xs \<noteq> [] \<Longrightarrow> \<not> P (hd xs) \<Longrightarrow> dropWhile P xs = xs"
  by (cases xs) auto

lemma str_strip_idem: "str_strip (str_strip s) = str_strip s"
proof -
  define d where "d = dropWhile isspace s"
  define e where "e = dropWhile isspace (rev d)"
  have t: "str_strip s = rev e"
    by (simp add: str_strip_def d_def e_def)
  show ?thesis
  proof (cases "e = []")
    case True
    with t have "str_strip s = []" by simp
    moreover have "str_strip [] = []" by (simp add: str_strip_def)
    ultimately show ?thesis by simp
  next
    case False
    then have he: "\<not> isspace (hd e)"
      unfolding e_def by (rule hd_dropWhile)
    have "rev d = takeWhile isspace (rev d) @ e"
      by (simp add: e_def)
    then have "rev (rev d) = rev (takeWhile isspace (rev d) @ e)"
      by simp
    then have dd: "d = rev e @ rev (takeWhile isspace (rev d))"
      by simp
    with False have dn: "d \<noteq> []"
      by auto
    from dd False have hd: "hd d = hd (rev e)"
      by (metis hd_append2 rev_is_Nil_conv)
    from dn have "\<not> isspace (hd d)"
      unfolding d_def by (rule hd_dropWhile)
    with hd have "\<not> isspace (hd (rev e))"
      by simp
    with False have 1: "dropWhile isspace (rev e) = rev e"
      by (simp add: dropWhile_hd_id)
    from False he have 2: "dropWhile isspace e = e"
      by (simp add: dropWhile_hd_id)
    show ?thesis
      by (simp add: t str_strip_def [of "rev e"] 1 2)
  qed
qed

lemma first_occurrences_fold: "first_occurrences xs = fold add_new xs []"
  by (simp add: fold_add_new)

lemma first_occurrences_distinct: "distinct xs \<Longrightarrow> first_occurrences xs = xs"
proof (induction xs)
  case Nil
  then show ?case by simp
next
  case (Cons x xs)
  then have "filter (\<lambda>y. y \<noteq> x) xs = xs"
    by (auto simp: filter_id_conv)
  with Cons show ?case by simp
qed

lemma add_new_absorb: "x \<in> set acc \<Longrightarrow> add_new x acc = acc"
  by (simp add: add_new_def)

lemma set_add_new: "set (add_new x acc) = insert x (set acc)"
  by (auto simp: add_new_def)

lemma fold_add_new_copies:
  "cols \<noteq> [] \<Longrightarrow> fold add_new (map (\<lambda>c. x) cols) acc = add_new x acc"
proof (induction cols arbitrary: acc)
  case Nil
  then show ?case by simp
next
  case (Cons c cols)
  show ?case
  proof (cases "cols = []")
    case True
    then show ?thesis by simp
  next
    case False
    from Cons.IH [OF False, of "add_new x acc"] show ?thesis
      by (simp add: add_new_absorb set_add_new)
  qed
qed

lemma fold_add_new_repeated:
  assumes "\<And>x. x \<in> set xs \<Longrightarrow> n x \<noteq> []"
  shows "fold add_new (concat (map (\<lambda>x. map (\<lambda>c. x) (n x)) xs)) acc = fold add_new xs acc"
  using assms
proof (induction xs arbitrary: acc)
  case Nil
  then show ?case by simp
next
  case (Cons x xs)
  then have "n x \<noteq> []" by simp
  then have "fold add_new (map (\<lambda>c. x) (n x)) acc = add_new x acc"
    by (rule fold_add_new_copies)
  with Cons show ?case by simp
qed

lemma fold_add_new_absorb: "set xs \<subseteq> set acc \<Longrightarrow> fold add_new xs acc = acc"
  by (induction xs) (simp_all add: add_new_absorb)

lemma fold_add_new_rounds:
  assumes "\<And>x. x \<in> set xs \<Longrightarrow> n x \<noteq> []" "set xs \<subseteq> set acc"
  shows "fold add_new (concat (map (\<lambda>se. concat (map (\<lambda>x. map (\<lambda>c. x) (n x)) xs)) ses)) acc = acc"
proof (induction ses)
  case Nil
  then show ?case by simp
next
  case (Cons se ses)
  have "fold add_new (concat (map (\<lambda>x. map (\<lambda>c. x) (n x)) xs)) acc = acc"
    using assms by (simp add: fold_add_new_repeated fold_add_new_absorb)
  with Cons show ?case by simp
qed

lemma first_occurrences_rounds:
  assumes "distinct xs" "\<And>x. x \<in> set xs \<Longrightarrow> n x \<noteq> []" "ses \<noteq> []"
  shows "first_occurrences (concat (map (\<lambda>se. concat (map (\<lambda>x. map (\<lambda>c. x) (n x)) xs)) ses)) = xs"
proof -
  from assms(3) obtain se ses' where ses: "ses = se # ses'"
    by (cases ses) auto
  have "fold add_new (concat (map (\<lambda>x. map (\<lambda>c. x) (n x)) xs)) [] = fold add_new xs []"
    by (rule fold_add_new_repeated) (use assms(2) in auto)
  also have "\<dots> = first_occurrences xs"
    by (simp add: first_occurrences_fold)
  also have "\<dots> = xs"
    using assms(1) by (rule first_occurrences_distinct)
  finally have 1: "fold add_new (concat (map (\<lambda>x. map (\<lambda>c. x) (n x)) xs)) [] = xs" .
  have 2: "fold add_new (concat (map (\<lambda>se. concat (map (\<lambda>x. map (\<lambda>c. x) (n x)) xs)) ses')) xs = xs"
    by (rule fold_add_new_rounds) (use assms(2) in auto)
  show ?thesis
    by (simp add: first_occurrences_fold ses 1 2)
qed

lemma display_name_has_column:
  assumes "compo \<in> set (display_names g cols)" "set cols \<subseteq> {0..<74}"
  shows "filter (names_column g (str_strip compo)) [0..<74] \<noteq> []"
proof -
  from assms(1) obtain c where c: "c \<in> set cols" "compo = trimmed g 15 c" "compo \<noteq> []"
    by (auto simp: display_names_def)
  then obtain s where s: "cell_at g 15 c = Some s" "compo = str_strip s"
    by (auto simp: trimmed_def split: option.splits)
  then have "names_column g (str_strip compo) c"
    by (simp add: names_column_def str_strip_idem)
  moreover from c assms(2) have "c \<in> set [0..<74]" by auto
  ultimately show ?thesis
    by (auto simp: filter_empty_conv)
qed

lemma component_has_column:
  assumes "compo \<in> set (components_of g se)"
  shows "filter (names_column g (str_strip compo)) [0..<74] \<noteq> []"
proof -
  from assms obtain r where "compo \<in> set (display_names g (component_columns g r))"
    by (auto simp: components_of_def split: option.splits)
  moreover have "set (component_columns g r) \<subseteq> {0..<74}"
    by (auto simp: component_columns_def)
  ultimately show ?thesis by (rule display_name_has_column)
qed

lemma degraded_matching_columns:
  assumes "\<And>row_name col_idx. get_cell_color src row_name col_idx = None"
  shows "matching_columns src g se defect_col compo =
           filter (names_column g (str_strip compo)) [0..<74]"
  by (simp add: matching_columns_def get_component_color_def assms)

lemma degraded_validated:
  assumes "\<And>row_name col_idx. get_cell_color src row_name col_idx = None"
  shows "first_occurrences (validated_occurrences src g defect_col ses
            (first_occurrences (concat (map (components_of g) ses))))
         = first_occurrences (concat (map (components_of g) ses))"
proof (cases "ses = []")
  case True
  then show ?thesis by (simp add: validated_occurrences_def)
next
  case False
  let ?comps = "first_occurrences (concat (map (components_of g) ses))"
  have "first_occurrences (concat (map (\<lambda>se. concat (map (\<lambda>x. map (\<lambda>c. x)
           (filter (names_column g (str_strip x)) [0..<74])) ?comps)) ses)) = ?comps"
  proof (rule first_occurrences_rounds)
    show "distinct ?comps" by simp
    show "ses \<noteq> []" by (rule False)
    fix x
    assume "x \<in> set ?comps"
    then obtain se where "x \<in> set (components_of g se)" by auto
    then show "filter (names_column g (str_strip x)) [0..<74] \<noteq> []"
      by (rule component_has_column)
  qed
  then show ?thesis
    by (simp add: validated_occurrences_def degraded_matching_columns [OF assms])
qed

section \<open>Defect lookup and the defect region\<close>

text \<open>
  C2.  The claim: \<open>find_defect_column\<close> examines only the cells of row 15 at or after column
  78 and returns the lowest such column whose text contains the name.  The code searches
  the whole of row 15, where columns 0 to 73 hold the component names: in a frame whose
  row 15 holds the component "Bolt" in column 10 and the defect "Bolt crack" in column 80,
  the name "bolt" is located at column 10, while \<open>list_all_defects\<close>, which does filter on
  column 78, lists the defect of column 80 only.
\<close>

theorem find_defect_column_below_78:
  "find_defect_column literal_re name_clash_grid ''bolt'' = Inr (Some 10)
   \<and> str_contains (str_lower ''bolt'') (str_lower ''Bolt crack'')
   \<and> list_all_defects name_clash_grid = [(80, ''Bolt crack'')]"
  by code_simp


section \<open>Frames smaller than the layout\<close>

text \<open>
  C3.  The claim: on every frame, also one with fewer rows than the layout needs, the
  resolvers return a result and an access outside the frame reads as an absent cell.
  On a frame of 10 rows and 80 columns with no cell filled, the fallback of
  \<open>get_sous_ensembles\<close> reads row 13 and the row search of \<open>get_composants\<close> and
  \<open>get_parametres\<close> reads row 10: each raises \<^verbatim>\<open>IndexError\<close>.
\<close>

theorem resolvers_raise_on_short_grid:
  "get_sous_ensembles short_grid 78 = Inl IndexError
   \<and> get_composants short_grid ''Housing'' = Inl IndexError
   \<and> get_parametres short_grid ''Housing'' = Inl IndexError"
  by code_simp

text \<open>
  C7.  The claim: on every frame \<open>get_composants\<close> returns the empty list when no row of
  3 to 13 carries the label, and otherwise the names of row 15 under the marked columns.
  On the frame of 10 rows the label search raises instead of finding nothing; on a frame
  of 15 rows in which row 5 is labelled "Housing" and marked in column 10, the read of the
  names row 15 raises.  (On a frame of at least 16 rows the function is \<open>components_of\<close>,
  lemma \<open>get_composants_total\<close>.)
\<close>

theorem get_composants_raises:
  "get_composants short_grid ''Housing'' = Inl IndexError
   \<and> find_sub_row no_names_row_grid ''Housing'' [3..<14] = Inr (Some 5)
   \<and> get_composants no_names_row_grid ''Housing'' = Inl IndexError"
  by code_simp


section \<open>Sub-assemblies\<close>

text \<open>
  C4.  For every frame and defect column, the marker loop over rows 3 to 14 yields the
  labels of column 75 (trimmed, the empty ones dropped) of the rows whose cell in the defect
  column trims to the marker, each label once, at the place of its first occurrence in row
  order.  That list has no duplicates, it is the result of \<open>get_sous_ensembles\<close> whenever it
  is not empty, and every result of \<open>get_sous_ensembles\<close> is free of duplicates.
\<close>

theorem sous_ensembles_marker_loop:
  "for_each [3..<15] (sous_ensembles_body g defect_col) [] = Inr (marker_loop_names g defect_col)
   \<and> distinct (marker_loop_names g defect_col)
   \<and> (marker_loop_names g defect_col \<noteq> [] \<longrightarrow>
        get_sous_ensembles g defect_col = Inr (marker_loop_names g defect_col))
   \<and> (\<forall>ses. get_sous_ensembles g defect_col = Inr ses \<longrightarrow> distinct ses)"
proof -
  have d: "distinct (marker_loop_names g defect_col)"
    by (simp add: marker_loop_names_def)
  have "distinct ses" if "get_sous_ensembles g defect_col = Inr ses" for ses
    using that d
    by (auto simp: get_sous_ensembles_def marker_loop_eq split: if_splits sum.splits)
  then show ?thesis
    using d by (simp add: marker_loop_eq get_sous_ensembles_def)
qed

text \<open>
  In the frame with the two sub-assemblies "Housing" (row 5) and "Cover" (row 6), both
  marked under the defect column 80 and the second label repeated on row 7, the loop
  yields the two names once each, in row order.
\<close>

theorem sous_ensembles_marker_loop_witness:
  "marker_loop_names repeated_label_grid 80 = [''Housing'', ''Cover'']
   \<and> get_sous_ensembles repeated_label_grid 80 = Inr [''Housing'', ''Cover'']"
proof -
  have m: "marker_loop_names repeated_label_grid 80 = [''Housing'', ''Cover'']"
    by code_simp
  from sous_ensembles_marker_loop [of repeated_label_grid 80] m show ?thesis
    by simp
qed

text \<open>
  C5.  The claim: when the marker loop finds nothing, the result is the one-element list of
  the trimmed label of cell (13, 75) if that label is not empty, and the empty list
  otherwise.  The marker loop drops a label that trims to the empty string; the fallback
  does not: with a single blank in cell (13, 75) the result is the one-element list holding
  the empty string.
\<close>

theorem fallback_keeps_blank_label:
  "for_each [3..<15] (sous_ensembles_body blank_label_grid 78) [] = Inr []
   \<and> trimmed blank_label_grid 13 75 = []
   \<and> get_sous_ensembles blank_label_grid 78 = Inr [[]]"
  by code_simp


section \<open>Parameters of a sub-assembly\<close>





section \<open>A defect that is not found\<close>

text \<open>
  C8.  Whenever \<open>find_defect_column\<close> finds no column for the name, \<open>analyze_defect\<close>
  returns the error-tagged result (it does not raise), and \<open>get_filtered_hierarchy\<close>
  returns the result with the defect name, no column, and empty lists of sub-assemblies,
  validated components and parameters, whatever the colour source and the
  regular-expression engine.
\<close>

theorem not_found_gives_empty_hierarchy:
  assumes "find_defect_column re_compile g defect_name = Inr None"
  shows "analyze_defect re_compile g defect_name =
           Inr (Error_result (error_message defect_name) defect_name)
         \<and> get_filtered_hierarchy re_compile src g defect_name =
             Inr \<lparr>fh_defect_name = defect_name, fh_defect_column = None, fh_sous_ensembles = [],
                  fh_bonnes_composants = [], fh_parametres = []\<rparr>"
  using assms by (simp add: analyze_defect_def get_filtered_hierarchy_def)

theorem not_found_gives_empty_hierarchy_witness:
  "find_defect_column literal_re housing_grid ''rust'' = Inr None
   \<and> analyze_defect literal_re housing_grid ''rust'' =
       Inr (Error_result (error_message ''rust'') ''rust'')
   \<and> get_filtered_hierarchy literal_re None housing_grid ''rust'' =
        Inr \<lparr>fh_defect_name = ''rust'', fh_defect_column = None, fh_sous_ensembles = [],
             fh_bonnes_composants = [], fh_parametres = []\<rparr>"
proof -
  have nf: "find_defect_column literal_re housing_grid ''rust'' = Inr None"
    by code_simp
  from not_found_gives_empty_hierarchy [OF nf, of None] nf show ?thesis
    by simp
qed


section \<open>The filtered hierarchy\<close>

text \<open>
  C9.  For every regular-expression engine, colour source, frame and defect name, the
  parameters of every result that \<open>get_filtered_hierarchy\<close> returns are the unfiltered
  parameters of \<open>analyze_defect\<close> whose linked components meet the validated components,
  in their order, each with its linked components reduced to those that are validated, in
  their order.  (It returns whenever the defect search does, lemma
  \<open>get_filtered_hierarchy_returns\<close>.)
\<close>

theorem filtered_parametres_restricted:
  assumes "get_filtered_hierarchy re_compile src g defect_name = Inr fh"
  shows "fh_parametres fh =
           restrict_parameters (fh_bonnes_composants fh)
             (unfiltered_parametres re_compile g defect_name)"
proof (cases "find_defect_column re_compile g defect_name")
  case (Inl e)
  from get_filtered_hierarchy_raises [OF this, of src] assms show ?thesis
    by simp
next
  case (Inr c)
  show ?thesis
  proof (cases c)
    case None
    with Inr have nf: "find_defect_column re_compile g defect_name = Inr None"
      by simp
    from get_filtered_hierarchy_not_found [OF nf, of src] assms nf show ?thesis
      by (auto simp: unfiltered_parametres_def analyze_defect_def restrict_parameters_def)
  next
    case (Some defect_col)
    with Inr have f: "find_defect_column re_compile g defect_name = Inr (Some defect_col)"
      by simp
    from get_filtered_hierarchy_found [OF f, of src] assms show ?thesis
      by (auto simp: analyze_defect_found [OF f] unfiltered_parametres_def)
  qed
qed

text \<open>
  In a frame where "Housing" has the components "Bolt" and "Nut", the parameter "Torque" is
  linked to both and only the cell of "Bolt" has the colour of the sub-assembly, the
  filtered parameter keeps "Bolt" alone.
\<close>

theorem filtered_parametres_restricted_witness:
  "get_filtered_hierarchy literal_re (Some two_component_sheet) two_component_grid ''crack'' =
     Inr \<lparr>fh_defect_name = ''crack'', fh_defect_column = Some 80,
          fh_sous_ensembles = [''Housing''], fh_bonnes_composants = [''Bolt''],
          fh_parametres = [\<lparr>param_name = ''Torque'', param_value = ''Retighten to 10Nm'',
                            param_components = [''Bolt'']\<rparr>]\<rparr>
   \<and> unfiltered_parametres literal_re two_component_grid ''crack'' =
       [\<lparr>param_name = ''Torque'', param_value = ''Retighten to 10Nm'',
         param_components = [''Bolt'', ''Nut'']\<rparr>]
   \<and> restrict_parameters [''Bolt''] (unfiltered_parametres literal_re two_component_grid ''crack'') =
       [\<lparr>param_name = ''Torque'', param_value = ''Retighten to 10Nm'',
         param_components = [''Bolt'']\<rparr>]"
proof -
  have e: "get_filtered_hierarchy literal_re (Some two_component_sheet) two_component_grid ''crack'' =
     Inr \<lparr>fh_defect_name = ''crack'', fh_defect_column = Some 80,
          fh_sous_ensembles = [''Housing''], fh_bonnes_composants = [''Bolt''],
          fh_parametres = [\<lparr>param_name = ''Torque'', param_value = ''Retighten to 10Nm'',
                            param_components = [''Bolt'']\<rparr>]\<rparr>"
    by code_simp
  have u: "unfiltered_parametres literal_re two_component_grid ''crack'' =
       [\<lparr>param_name = ''Torque'', param_value = ''Retighten to 10Nm'',
         param_components = [''Bolt'', ''Nut'']\<rparr>]"
    by code_simp
  from filtered_parametres_restricted [OF e]
  have "restrict_parameters [''Bolt''] (unfiltered_parametres literal_re two_component_grid ''crack'') =
       [\<lparr>param_name = ''Torque'', param_value = ''Retighten to 10Nm'',
         param_components = [''Bolt'']\<rparr>]"
    by simp
  with e u show ?thesis
    by simp
qed

text \<open>
  C10.  When the defect is found, the unfiltered parameters of \<open>analyze_defect\<close> are the
  concatenation, in sub-assembly order, of what \<open>get_parametres\<close> returns for each
  sub-assembly, with nothing removed.  In the frame where the sub-assemblies "Housing" and
  "Cover" are both marked in column 10 and the parameter row 20 is linked to that column,
  the parameter "Torque" appears twice, while the component "Bolt" appears once.
\<close>

theorem parametres_concatenated:
  "(find_defect_column re_compile g defect_name = Inr (Some defect_col) \<longrightarrow>
      (\<exists>r pss. analyze_defect re_compile g defect_name = Inr (Found r)
         \<and> map (get_parametres g) (h_sous_ensembles r) = map Inr pss
         \<and> h_parametres r = concat pss))
   \<and> analyze_defect literal_re shared_row_grid ''crack'' =
       Inr (Found \<lparr>h_defect_name = ''crack'', h_defect_column = 80,
                   h_sous_ensembles = [''Housing'', ''Cover''], h_composants = [''Bolt''],
                   h_parametres =
                     [\<lparr>param_name = ''Torque'', param_value = ''Retighten to 10Nm'',
                       param_components = [''Bolt'']\<rparr>,
                      \<lparr>param_name = ''Torque'', param_value = ''Retighten to 10Nm'',
                       param_components = [''Bolt'']\<rparr>]\<rparr>)"
proof (rule conjI)
  show "find_defect_column re_compile g defect_name = Inr (Some defect_col) \<longrightarrow>
      (\<exists>r pss. analyze_defect re_compile g defect_name = Inr (Found r)
         \<and> map (get_parametres g) (h_sous_ensembles r) = map Inr pss
         \<and> h_parametres r = concat pss)"
  proof (rule impI)
    assume f: "find_defect_column re_compile g defect_name = Inr (Some defect_col)"
    let ?ses = "sub_assemblies_of g defect_col"
    let ?r = "\<lparr>h_defect_name = defect_name, h_defect_column = defect_col,
               h_sous_ensembles = ?ses,
               h_composants = first_occurrences (concat (map (components_of g) ?ses)),
               h_parametres = concat (map (parameters_of g) ?ses)\<rparr>"
    from find_defect_column_Some [OF f] have n: "13 < nrows g"
      by simp
    have a: "analyze_defect re_compile g defect_name = Inr (Found ?r)"
      by (rule analyze_defect_found [OF f])
    have m: "map (get_parametres g) (h_sous_ensembles ?r) = map Inr (map (parameters_of g) ?ses)"
      by (simp add: get_parametres_total [OF n])
    have c: "h_parametres ?r = concat (map (parameters_of g) ?ses)"
      by simp
    from a m c have "analyze_defect re_compile g defect_name = Inr (Found ?r)
         \<and> map (get_parametres g) (h_sous_ensembles ?r) = map Inr (map (parameters_of g) ?ses)
         \<and> h_parametres ?r = concat (map (parameters_of g) ?ses)"
      by (intro conjI)
    then show "\<exists>r pss. analyze_defect re_compile g defect_name = Inr (Found r)
         \<and> map (get_parametres g) (h_sous_ensembles r) = map Inr pss
         \<and> h_parametres r = concat pss"
      by (intro exI)
  qed
next
  show "analyze_defect literal_re shared_row_grid ''crack'' =
       Inr (Found \<lparr>h_defect_name = ''crack'', h_defect_column = 80,
                   h_sous_ensembles = [''Housing'', ''Cover''], h_composants = [''Bolt''],
                   h_parametres =
                     [\<lparr>param_name = ''Torque'', param_value = ''Retighten to 10Nm'',
                       param_components = [''Bolt'']\<rparr>,
                      \<lparr>param_name = ''Torque'', param_value = ''Retighten to 10Nm'',
                       param_components = [''Bolt'']\<rparr>]\<rparr>)"
    by code_simp
qed

theorem parametres_concatenated_witness:
  "find_defect_column literal_re shared_row_grid ''crack'' = Inr (Some 80)
   \<and> map (get_parametres shared_row_grid) [''Housing'', ''Cover''] =
       map Inr [[\<lparr>param_name = ''Torque'', param_value = ''Retighten to 10Nm'',
                  param_components = [''Bolt'']\<rparr>],
                [\<lparr>param_name = ''Torque'', param_value = ''Retighten to 10Nm'',
                  param_components = [''Bolt'']\<rparr>]]
   \<and> (\<exists>r pss. analyze_defect literal_re shared_row_grid ''crack'' = Inr (Found r)
         \<and> map (get_parametres shared_row_grid) (h_sous_ensembles r) = map Inr pss
         \<and> h_parametres r = concat pss)"
proof -
  have f: "find_defect_column literal_re shared_row_grid ''crack'' = Inr (Some 80)"
    by code_simp
  have m: "map (get_parametres shared_row_grid) [''Housing'', ''Cover''] =
       map Inr [[\<lparr>param_name = ''Torque'', param_value = ''Retighten to 10Nm'',
                  param_components = [''Bolt'']\<rparr>],
                [\<lparr>param_name = ''Torque'', param_value = ''Retighten to 10Nm'',
                  param_components = [''Bolt'']\<rparr>]]"
    by code_simp
  from parametres_concatenated [of literal_re shared_row_grid "''crack''" 80]
  have "find_defect_column literal_re shared_row_grid ''crack'' = Inr (Some 80) \<longrightarrow>
      (\<exists>r pss. analyze_defect literal_re shared_row_grid ''crack'' = Inr (Found r)
         \<and> map (get_parametres shared_row_grid) (h_sous_ensembles r) = map Inr pss
         \<and> h_parametres r = concat pss)"
    by (rule conjunct1)
  from this f have ex: "\<exists>r pss. analyze_defect literal_re shared_row_grid ''crack'' = Inr (Found r)
         \<and> map (get_parametres shared_row_grid) (h_sous_ensembles r) = map Inr pss
         \<and> h_parametres r = concat pss"
    by (rule mp)
  from f m ex show ?thesis
    by (intro conjI)
qed


section \<open>Colour filtering without colour information\<close>

text \<open>
  C1, as amended.  When every colour lookup returns \<^verbatim>\<open>None\<close>, the validated components
  of every result that \<open>get_filtered_hierarchy\<close> returns are the unfiltered, deduplicated
  components of \<open>analyze_defect\<close>: the comparison of two unknown colours succeeds, so every
  component is kept.  (\<open>analyze_defect\<close> has no access to the colour source, so the
  unfiltered list is the same with and without colour information.)
\<close>

theorem degraded_colour_keeps_components:
  assumes "\<And>row_name col_idx. get_cell_color src row_name col_idx = None"
    and "get_filtered_hierarchy re_compile src g defect_name = Inr fh"
  shows "fh_bonnes_composants fh = unfiltered_composants re_compile g defect_name"
proof (cases "find_defect_column re_compile g defect_name")
  case (Inl e)
  from get_filtered_hierarchy_raises [OF this, of src] assms(2) show ?thesis
    by simp
next
  case (Inr c)
  show ?thesis
  proof (cases c)
    case None
    with Inr have nf: "find_defect_column re_compile g defect_name = Inr None"
      by simp
    from get_filtered_hierarchy_not_found [OF nf, of src] assms(2) nf show ?thesis
      by (auto simp: unfiltered_composants_def analyze_defect_def)
  next
    case (Some defect_col)
    with Inr have f: "find_defect_column re_compile g defect_name = Inr (Some defect_col)"
      by simp
    from get_filtered_hierarchy_found [OF f, of src] assms(2) show ?thesis
      by (auto simp: analyze_defect_found [OF f] unfiltered_composants_def
            degraded_validated [OF assms(1)])
  qed
qed

text \<open>
  With no workbook, on the frame where "Housing" has the components "Bolt" and "Nut", both
  are validated.
\<close>

theorem degraded_colour_keeps_components_witness:
  "(\<forall>row_name col_idx. get_cell_color None row_name col_idx = None)
   \<and> get_filtered_hierarchy literal_re None two_component_grid ''crack'' =
       Inr \<lparr>fh_defect_name = ''crack'', fh_defect_column = Some 80,
            fh_sous_ensembles = [''Housing''], fh_bonnes_composants = [''Bolt'', ''Nut''],
            fh_parametres = [\<lparr>param_name = ''Torque'', param_value = ''Retighten to 10Nm'',
                              param_components = [''Bolt'', ''Nut'']\<rparr>]\<rparr>
   \<and> unfiltered_composants literal_re two_component_grid ''crack'' = [''Bolt'', ''Nut'']"
proof -
  have d: "get_cell_color None row_name col_idx = None" for row_name col_idx
    by (simp add: get_cell_color_def)
  have e: "get_filtered_hierarchy literal_re None two_component_grid ''crack'' =
       Inr \<lparr>fh_defect_name = ''crack'', fh_defect_column = Some 80,
            fh_sous_ensembles = [''Housing''], fh_bonnes_composants = [''Bolt'', ''Nut''],
            fh_parametres = [\<lparr>param_name = ''Torque'', param_value = ''Retighten to 10Nm'',
                              param_components = [''Bolt'', ''Nut'']\<rparr>]\<rparr>"
    by code_simp
  from degraded_colour_keeps_components [OF d e]
  have "unfiltered_composants literal_re two_component_grid ''crack'' = [''Bolt'', ''Nut'']"
    by simp
  with d e show ?thesis
    by simp
qed

text \<open>
  C1 as stated has the validated components empty when no colour is known.  With no
  workbook at all, the lookups for the sub-assembly "Housing" at the defect column 80 and
  at the component column 10 both return \<^verbatim>\<open>None\<close>, and "Bolt" is validated.
\<close>

theorem degraded_colour_counterexample:
  "get_cell_color None ''Housing'' 80 = None
   \<and> get_component_color None ''Housing'' 10 = None
   \<and> get_filtered_hierarchy literal_re None housing_grid ''crack'' =
       Inr \<lparr>fh_defect_name = ''crack'', fh_defect_column = Some 80,
            fh_sous_ensembles = [''Housing''], fh_bonnes_composants = [''Bolt''],
            fh_parametres = [\<lparr>param_name = ''Torque'', param_value = ''Retighten to 10Nm'',
                              param_components = [''Bolt'']\<rparr>]\<rparr>"
  by code_simp

end
